theory Spec2Isabelle
  imports Main "HOL-Library.Sublist"
begin

section \<open>The event tracking script \<^verbatim>\<open>website/scripts/tracking.js\<close>\<close>

text \<open>
  A shallow embedding of the tracking script. A JavaScript string is a \<^typ>\<open>string\<close>:
  one \<^typ>\<open>char\<close> stands for one UTF-16 code unit in the range U+0000 to U+00FF, so
  that \<^const>\<open>length\<close> is the script's \<^verbatim>\<open>.length\<close>. A function of the script that
  can throw returns \<open>js_error + 'a\<close>, with \<open>Inl\<close> for the exception.
\<close>

subsection \<open>Strings: the built-in methods the script calls\<close>

text \<open>The exceptions that can arise: a TypeError from a call of something that is not a
  function or a read on \<^verbatim>\<open>undefined\<close>, and the RangeError of an exhausted call stack.\<close>

datatype js_error = TypeError | RangeError

definition upper_chars :: "char list" where
  "upper_chars = ''ABCDEFGHIJKLMNOPQRSTUVWXYZ'' @
     [CHR 0xC0, CHR 0xC1, CHR 0xC2, CHR 0xC3, CHR 0xC4, CHR 0xC5, CHR 0xC6, CHR 0xC7,
      CHR 0xC8, CHR 0xC9, CHR 0xCA, CHR 0xCB, CHR 0xCC, CHR 0xCD, CHR 0xCE, CHR 0xCF,
      CHR 0xD0, CHR 0xD1, CHR 0xD2, CHR 0xD3, CHR 0xD4, CHR 0xD5, CHR 0xD6,
      CHR 0xD8, CHR 0xD9, CHR 0xDA, CHR 0xDB, CHR 0xDC, CHR 0xDD, CHR 0xDE]"

definition lower_chars :: "char list" where
  "lower_chars = ''abcdefghijklmnopqrstuvwxyz'' @
     [CHR 0xE0, CHR 0xE1, CHR 0xE2, CHR 0xE3, CHR 0xE4, CHR 0xE5, CHR 0xE6, CHR 0xE7,
      CHR 0xE8, CHR 0xE9, CHR 0xEA, CHR 0xEB, CHR 0xEC, CHR 0xED, CHR 0xEE, CHR 0xEF,
      CHR 0xF0, CHR 0xF1, CHR 0xF2, CHR 0xF3, CHR 0xF4, CHR 0xF5, CHR 0xF6,
      CHR 0xF8, CHR 0xF9, CHR 0xFA, CHR 0xFB, CHR 0xFC, CHR 0xFD, CHR 0xFE]"

text \<open>\<^verbatim>\<open>String.prototype.toLowerCase\<close> on the code units below U+0100: the letters A to Z
  and the upper-case letters of Latin-1 move to their lower-case forms, the rest stays.\<close>

definition toLowerCase_char :: "char \<Rightarrow> char" where
  "toLowerCase_char c =
     (case map_of (zip upper_chars lower_chars) c of Some l \<Rightarrow> l | None \<Rightarrow> c)"

definition toLowerCase :: "string \<Rightarrow> string" where
  "toLowerCase s = map toLowerCase_char s"

text \<open>The white space and line terminators that \<^verbatim>\<open>trim\<close> removes, below U+0100:
  tab, line feed, vertical tab, form feed, carriage return, space, no-break space.\<close>

definition is_white_space :: "char \<Rightarrow> bool" where
  "is_white_space c \<longleftrightarrow>
     c \<in> set [CHR 0x09, CHR 0x0A, CHR 0x0B, CHR 0x0C, CHR 0x0D, CHR 0x20, CHR 0xA0]"

definition trim :: "string \<Rightarrow> string" where
  "trim s = rev (dropWhile is_white_space (rev (dropWhile is_white_space s)))"

text \<open>\<^verbatim>\<open>s.substring(0, n)\<close> for \<open>n \<ge> 0\<close>.\<close>

definition substring0 :: "nat \<Rightarrow> string \<Rightarrow> string" where
  "substring0 n s = take n s"

text \<open>\<^verbatim>\<open>s.includes(sub)\<close>: \<open>sub\<close> occurs in \<open>s\<close> as a contiguous run.\<close>

fun includes_str :: "string \<Rightarrow> string \<Rightarrow> bool" where
  "includes_str [] sub = (sub = [])"
| "includes_str (c # cs) sub = (prefix sub (c # cs) \<or> includes_str cs sub)"

text \<open>\<^verbatim>\<open>s.split(sep)\<close> for a separator of one character: never the empty array.\<close>

fun split :: "char \<Rightarrow> string \<Rightarrow> string list" where
  "split sep [] = [[]]"
| "split sep (c # cs) =
     (if c = sep then [] # split sep cs
      else (case split sep cs of [] \<Rightarrow> [[c]] | w # ws \<Rightarrow> (c # w) # ws))"

text \<open>\<^verbatim>\<open>parts.join(sep)\<close>.\<close>

fun join :: "string \<Rightarrow> string list \<Rightarrow> string" where
  "join sep [] = []"
| "join sep [w] = w"
| "join sep (w # v # ws) = w @ sep @ join sep (v # ws)"

subsection \<open>DOM elements\<close>

text \<open>
  \<^verbatim>\<open>element.className\<close> is a string on an HTML element and an \<^verbatim>\<open>SVGAnimatedString\<close>
  object (holding the class attribute as its \<^verbatim>\<open>baseVal\<close>) on an SVG element.
\<close>

datatype class_name = ClassString string | SVGAnimatedString string

text \<open>
  The properties of an element that the script reads. \<open>id_prop\<close> is \<^verbatim>\<open>element.id\<close> and
  \<open>type_prop\<close> is \<^verbatim>\<open>element.type\<close>; a property the element's interface does not have is
  \<^verbatim>\<open>undefined\<close>, here \<open>None\<close>. \<open>tagName\<close> and \<open>localName\<close> are kept apart: on an HTML
  element in an HTML document \<^verbatim>\<open>tagName\<close> is the qualified name in upper case, while
  \<^verbatim>\<open>localName\<close> is the name as the element was created. \<open>ancestors\<close> holds the local names
  of the parent element, its parent, and so on up to the root.
\<close>

record element =
  tagName :: string
  localName :: string
  id_prop :: string
  className :: class_name
  textContent :: string
  type_prop :: "string option"
  alt :: "string option"
  src :: "string option"
  ancestors :: "string list"

text \<open>A value used as a condition: the empty string and \<^verbatim>\<open>undefined\<close> are falsy, an
  object is truthy.\<close>

definition truthy :: "string \<Rightarrow> bool" where
  "truthy s \<longleftrightarrow> s \<noteq> []"

fun truthy_class :: "class_name \<Rightarrow> bool" where
  "truthy_class (ClassString s) = truthy s"
| "truthy_class (SVGAnimatedString b) = True"

text \<open>\<^verbatim>\<open>element.className.includes(sub)\<close>: an \<^verbatim>\<open>SVGAnimatedString\<close> has no method
  \<^verbatim>\<open>includes\<close>, and calling \<^verbatim>\<open>undefined\<close> throws a TypeError.\<close>

fun className_includes :: "class_name \<Rightarrow> string \<Rightarrow> js_error + bool" where
  "className_includes (ClassString s) sub = Inr (includes_str s sub)"
| "className_includes (SVGAnimatedString b) sub = Inl TypeError"

text \<open>\<^verbatim>\<open>element.closest(sel)\<close> for a type selector written in lower case, as \<^verbatim>\<open>'nav'\<close> and
  \<^verbatim>\<open>'form'\<close> are: the element itself or the nearest ancestor whose local name is \<open>sel\<close>. A
  type selector is compared with the local name of an element, not with its
  \<^verbatim>\<open>tagName\<close>. \<open>None\<close> is \<^verbatim>\<open>null\<close>.\<close>

definition closest :: "string \<Rightarrow> element \<Rightarrow> string option" where
  "closest sel e = find (\<lambda>n. n = sel) (localName e # ancestors e)"

subsection \<open>The element classifier\<close>

text \<open>\<^verbatim>\<open>determineElementType\<close>, lines 52 to 86 of the script: the tests in the order
  of the source, each returning at once when it holds.\<close>

definition determineElementType :: "element \<Rightarrow> js_error + string" where
  "determineElementType e =
     (let tag = toLowerCase (tagName e) in
      if tag = ''a'' then Inr ''link''
      else if tag = ''button'' then Inr ''button''
      else if tag = ''img'' then Inr ''image''
      else if tag = ''input'' then
        (case type_prop e of
           None \<Rightarrow> Inr ''input''
         | Some t \<Rightarrow> if truthy t then Inr (''input-'' @ t) else Inr ''input'')
      else if tag = ''select'' then Inr ''dropdown''
      else if tag = ''textarea'' then Inr ''textarea''
      else if closest ''nav'' e \<noteq> None then Inr ''navigation''
      else if tag = ''li'' then Inr ''list-item''
      else if tag \<in> set [''h1'', ''h2'', ''h3'', ''h4'', ''h5'', ''h6''] then Inr ''heading''
      else if closest ''form'' e \<noteq> None then Inr ''form-element''
      else if truthy_class (className e) then
        (case className_includes (className e) ''btn'' of
           Inl err \<Rightarrow> Inl err
         | Inr True \<Rightarrow> Inr ''button''
         | Inr False \<Rightarrow>
             (case className_includes (className e) ''card'' of
                Inl err \<Rightarrow> Inl err
              | Inr True \<Rightarrow> Inr ''card''
              | Inr False \<Rightarrow>
                  (case className_includes (className e) ''icon'' of
                     Inl err \<Rightarrow> Inl err
                   | Inr True \<Rightarrow> Inr ''icon''
                   | Inr False \<Rightarrow> Inr tag)))
      else Inr tag)"

subsection \<open>The element describer\<close>

text \<open>\<^verbatim>\<open>typeof element.className === 'string'\<close>, with the string when it holds.\<close>

fun typeof_string :: "class_name \<Rightarrow> string option" where
  "typeof_string (ClassString s) = Some s"
| "typeof_string (SVGAnimatedString b) = None"

text \<open>Rules 3 to 5 of \<^verbatim>\<open>getElementDescription\<close>, lines 109 to 120, the statements after
  the text rule:
  the class list joined by dots, then for an image the alt text or the last path segment
  of the source, then the tag name. \<^verbatim>\<open>split\<close> on an undefined \<^verbatim>\<open>src\<close> throws.\<close>

definition describe_without_text :: "element \<Rightarrow> js_error + string" where
  "describe_without_text e =
     (case (if truthy_class (className e) then typeof_string (className e) else None) of
        Some c \<Rightarrow> Inr (''.'' @ join ''.'' (split CHR '' '' c))
      | None \<Rightarrow>
          if toLowerCase (tagName e) = ''img'' then
            (case alt e of
               Some a \<Rightarrow>
                 if truthy a then Inr a
                 else (case src e of None \<Rightarrow> Inl TypeError
                       | Some u \<Rightarrow> Inr (last (split CHR ''/'' u)))
             | None \<Rightarrow>
                 (case src e of None \<Rightarrow> Inl TypeError
                  | Some u \<Rightarrow> Inr (last (split CHR ''/'' u))))
          else Inr (toLowerCase (tagName e)))"

text \<open>\<^verbatim>\<open>getElementDescription\<close>, lines 93 to 121. Control reaches rules 3 to 5 when the
  text content is empty and when its trimmed form is empty.\<close>

definition getElementDescription :: "element \<Rightarrow> js_error + string" where
  "getElementDescription e =
     (if truthy (id_prop e) then Inr (''#'' @ id_prop e)
      else if truthy (textContent e) then
        (let text = trim (textContent e) in
         if truthy text then
           (if length text > 30 then Inr (substring0 27 text @ ''...'') else Inr text)
         else describe_without_text e)
      else describe_without_text e)"

subsection \<open>The clock and \<^verbatim>\<open>Date.prototype.toISOString\<close>\<close>

text \<open>A moment as its fields in UTC; the year may be negative.\<close>

record date =
  year :: int
  month :: nat
  day :: nat
  hours :: nat
  minutes :: nat
  seconds :: nat
  milliseconds :: nat

definition digit_char :: "nat \<Rightarrow> char" where
  "digit_char n = ''0123456789'' ! (n mod 10)"

text \<open>The last two, three, four and six decimal digits of \<open>n\<close>, with leading zeros.\<close>

definition pad2 :: "nat \<Rightarrow> string" where
  "pad2 n = [digit_char (n div 10), digit_char n]"

definition pad3 :: "nat \<Rightarrow> string" where
  "pad3 n = digit_char (n div 100) # pad2 n"

definition pad4 :: "nat \<Rightarrow> string" where
  "pad4 n = digit_char (n div 1000) # pad3 n"

definition pad6 :: "nat \<Rightarrow> string" where
  "pad6 n = digit_char (n div 100000) # digit_char (n div 10000) # pad4 n"

text \<open>\<^verbatim>\<open>YYYY-MM-DDTHH:mm:ss.sssZ\<close>; a year before 0 or after 9999 is written with its
  sign and six digits.\<close>

definition toISOString :: "date \<Rightarrow> string" where
  "toISOString d =
     (if 0 \<le> year d \<and> year d \<le> 9999 then pad4 (nat (year d))
      else (if year d < 0 then ''-'' else ''+'') @ pad6 (nat \<bar>year d\<bar>))
     @ ''-'' @ pad2 (month d) @ ''-'' @ pad2 (day d)
     @ ''T'' @ pad2 (hours d) @ '':'' @ pad2 (minutes d) @ '':'' @ pad2 (seconds d)
     @ ''.'' @ pad3 (milliseconds d) @ ''Z''"

text \<open>\<^verbatim>\<open>s.slice(0, n)\<close> for \<open>n \<ge> 0\<close>.\<close>

definition slice0 :: "nat \<Rightarrow> string \<Rightarrow> string" where
  "slice0 n s = take n s"

subsection \<open>\<^verbatim>\<open>encodeURIComponent\<close> and the reading of a data URL\<close>

text \<open>\<^verbatim>\<open>encodeURIComponent\<close> keeps the unreserved characters and writes every other one as
  the percent-encoded bytes of its UTF-8 form. It throws a URIError only on a lone
  surrogate, a code unit from U+D800 on, which the strings here do not have.\<close>

definition unreserved :: "char \<Rightarrow> bool" where
  "unreserved c \<longleftrightarrow>
     c \<in> set (''ABCDEFGHIJKLMNOPQRSTUVWXYZabcdefghijklmnopqrstuvwxyz0123456789-_.!~*()''
               @ [CHR 0x27])"

definition hex_digit :: "nat \<Rightarrow> char" where
  "hex_digit n = ''0123456789ABCDEF'' ! (n mod 16)"

definition pct_byte :: "nat \<Rightarrow> string" where
  "pct_byte b = [CHR ''%'', hex_digit (b div 16), hex_digit b]"

text \<open>The UTF-8 bytes of a code point below U+0100.\<close>

definition utf8_bytes :: "char \<Rightarrow> nat list" where
  "utf8_bytes c =
     (let n = (of_char c :: nat)
      in if n < 128 then [n] else [192 + n div 64, 128 + n mod 64])"

definition encode_char :: "char \<Rightarrow> string" where
  "encode_char c = (if unreserved c then [c] else concat (map pct_byte (utf8_bytes c)))"

definition encodeURIComponent :: "string \<Rightarrow> string" where
  "encodeURIComponent s = concat (map encode_char s)"

text \<open>What the browser does with the body of a data URL: percent-decoding to bytes, and
  the bytes read as UTF-8 (here for code points below U+0100).\<close>

definition hex_value :: "char \<Rightarrow> nat option" where
  "hex_value c =
     map_of (zip ''0123456789ABCDEFabcdef''
       [0, 1, 2, 3, 4, 5, 6, 7, 8, 9, 10, 11, 12, 13, 14, 15, 10, 11, 12, 13, 14, 15]) c"

fun percent_decode :: "string \<Rightarrow> nat list" where
  "percent_decode [] = []"
| "percent_decode [c] = [of_char c]"
| "percent_decode [c, h] = [of_char c, of_char h]"
| "percent_decode (c # h # l # cs) =
     (case (c = CHR ''%'', hex_value h, hex_value l) of
        (True, Some x, Some y) \<Rightarrow> (16 * x + y) # percent_decode cs
      | _ \<Rightarrow> of_char c # percent_decode (h # l # cs))"

fun utf8_decode :: "nat list \<Rightarrow> string" where
  "utf8_decode [] = []"
| "utf8_decode [b] = [char_of b]"
| "utf8_decode (b # b' # bs) =
     (if 192 \<le> b \<and> b < 224 then char_of ((b - 192) * 64 + (b' - 128)) # utf8_decode bs
      else char_of b # utf8_decode (b' # bs))"

text \<open>A data URL \<^verbatim>\<open>data:<media type>;<parameters>,<body>\<close> read as the media type and
  the content it stands for.\<close>

definition data_url :: "string \<Rightarrow> (string \<times> string) option" where
  "data_url u =
     (if prefix ''data:'' u \<and> CHR '','' \<in> set u then
        (let rest = drop 5 u;
             header = takeWhile (\<lambda>c. c \<noteq> CHR '','') rest;
             body = drop 1 (dropWhile (\<lambda>c. c \<noteq> CHR '','') rest)
         in Some (takeWhile (\<lambda>c. c \<noteq> CHR '';'') header, utf8_decode (percent_decode body)))
      else None)"

subsection \<open>The page: console, beacon, local storage, downloads, listener\<close>

record blob =
  parts :: string
  blob_type :: string

text \<open>The anchor element that \<^verbatim>\<open>downloadTrackingData\<close> creates: its two attributes.\<close>

record anchor =
  href :: string
  download :: string

text \<open>
  What the script reads and writes. \<open>clock\<close> gives the moments that successive
  \<^verbatim>\<open>new Date()\<close> calls return and \<open>reads\<close> counts the calls made; \<open>console\<close> holds the
  lines of \<^verbatim>\<open>console.log\<close>; \<open>beacons\<close> the calls of \<^verbatim>\<open>navigator.sendBeacon\<close>;
  \<open>trackingEvents\<close> the item of that name in local storage (\<open>None\<close> when absent);
  \<open>clicked\<close> the download anchors on which \<^verbatim>\<open>click()\<close> was called, in the order of the
  calls. \<open>listening\<close> tells whether the click listener of line 11 is registered on the
  document; \<open>uncaught\<close> holds the exceptions that left a listener and were reported by
  the event dispatch.

  The script contains a cycle: \<^verbatim>\<open>downloadTrackingData\<close> clicks an anchor that it has put
  into the body, the click reaches the document's click listener, the listener calls
  \<^verbatim>\<open>logEvent\<close>, \<^verbatim>\<open>logEvent\<close> calls \<^verbatim>\<open>saveEventToFile\<close>, and the buffer, not yet reset,
  is still longer than the threshold, so that \<^verbatim>\<open>saveEventToFile\<close> calls
  \<^verbatim>\<open>downloadTrackingData\<close> again. An engine ends the nesting when its call stack is
  used up, with a RangeError in the innermost call that the dispatch of the innermost
  click reports. \<open>stack\<close> is the number of further nested listener calls the call stack
  has room for; the point at which an engine gives up is not fixed by the language, and
  here it is the dispatch of the click.

  The browser is taken to accept every other call: local storage has room for the
  buffer, and the document has a body.
\<close>

record world =
  clock :: "nat \<Rightarrow> date"
  reads :: nat
  console :: "string list"
  beacons :: "(string \<times> blob) list"
  trackingEvents :: "string option"
  clicked :: "anchor list"
  listening :: bool
  stack :: nat
  uncaught :: "js_error list"

definition new_Date :: "world \<Rightarrow> date \<times> world" where
  "new_Date s = (clock s (reads s), s\<lparr>reads := Suc (reads s)\<rparr>)"

text \<open>\<^verbatim>\<open>localStorage.getItem('trackingEvents') || ''\<close>.\<close>

definition getItem_or_empty :: "world \<Rightarrow> string" where
  "getItem_or_empty s = (case trackingEvents s of None \<Rightarrow> [] | Some v \<Rightarrow> v)"

definition newline :: string where
  "newline = [CHR 0x0A]"

text \<open>The anchor of \<^verbatim>\<open>downloadTrackingData\<close> as the click listener sees it in
  \<^verbatim>\<open>event.target\<close>: an \<^verbatim>\<open>a\<close> element in the body, with no id, no text and no class.\<close>

definition download_anchor :: element where
  "download_anchor = \<lparr>tagName = ''A'', localName = ''a'', id_prop = [],
     className = ClassString [], textContent = [], type_prop = Some [], alt = None,
     src = None, ancestors = [''body'', ''html'']\<rparr>"

subsection \<open>The click listener, the logger, persistence and export\<close>

text \<open>
  The four functions of the cycle, each as the script has it.
  \<^item> \<^verbatim>\<open>downloadTrackingData\<close>, lines 164 to 184: it reads the buffer and the clock, builds
    the anchor, appends it to the body, clicks it, removes it and resets the buffer. The
    body is left as it was. The click is recorded in \<open>clicked\<close> and, on a page that
    listens, dispatched to the click listener before \<^verbatim>\<open>click()\<close> returns.
  \<^item> The click listener, lines 11 to 20. An exception of the classifier or the describer
    leaves the listener and is reported.
  \<^item> \<^verbatim>\<open>logEvent\<close>, lines 129 to 138.
  \<^item> \<^verbatim>\<open>saveEventToFile\<close>, lines 144 to 159: the beacon, the append to the stored buffer,
    and the export when the buffer read before the append was longer than 10000.
\<close>

function downloadTrackingData :: "world \<Rightarrow> world"
  and click_listener :: "element \<Rightarrow> world \<Rightarrow> world"
  and logEvent :: "string \<Rightarrow> string \<Rightarrow> string \<Rightarrow> world \<Rightarrow> world"
  and saveEventToFile :: "string \<Rightarrow> world \<Rightarrow> world"
where
  "downloadTrackingData s =
     (let trackingData = getItem_or_empty s;
          now = fst (new_Date s);
          s1 = snd (new_Date s);
          element = \<lparr>href = ''data:text/plain;charset=utf-8,'' @ encodeURIComponent trackingData,
                     download = ''tracking_data_'' @ slice0 10 (toISOString now) @ ''.txt''\<rparr>;
          s2 = s1\<lparr>clicked := clicked s1 @ [element]\<rparr>;
          s3 = (if listening s2 then
                  (if stack s2 = 0 then s2\<lparr>uncaught := uncaught s2 @ [RangeError]\<rparr>
                   else (click_listener download_anchor (s2\<lparr>stack := stack s2 - 1\<rparr>))
                          \<lparr>stack := stack s2\<rparr>)
                else s2)
      in s3\<lparr>trackingEvents := Some []\<rparr>)"
| "click_listener clickedElement s =
     (case determineElementType clickedElement of
        Inl err \<Rightarrow> s\<lparr>uncaught := uncaught s @ [err]\<rparr>
      | Inr elementType \<Rightarrow>
          (case getElementDescription clickedElement of
             Inl err \<Rightarrow> s\<lparr>uncaught := uncaught s @ [err]\<rparr>
           | Inr description \<Rightarrow> logEvent ''click'' elementType description s))"
| "logEvent eventType objectType objectDescription s =
     (let now = fst (new_Date s);
          s1 = snd (new_Date s);
          timestamp = toISOString now;
          logEntry = timestamp @ '', '' @ eventType @ '', '' @ objectType @ '':''
            @ objectDescription;
          s2 = s1\<lparr>console := console s1 @ [logEntry]\<rparr>
      in saveEventToFile logEntry s2)"
| "saveEventToFile eventData s =
     (let b = \<lparr>parts = eventData @ newline, blob_type = ''text/plain''\<rparr>;
          s1 = s\<lparr>beacons := beacons s @ [(''/tracking-endpoint'', b)]\<rparr>;
          storedEvents = getItem_or_empty s1;
          s2 = s1\<lparr>trackingEvents := Some (storedEvents @ eventData @ newline)\<rparr>
      in if length storedEvents > 10000 then downloadTrackingData s2 else s2)"
  by pat_completeness auto
termination
  apply (relation "measure (\<lambda>x. case x of
      Inl (Inl s) \<Rightarrow> 4 * stack s
    | Inl (Inr (e, s)) \<Rightarrow> 4 * stack s + 3
    | Inr (Inl (k, t, d, s)) \<Rightarrow> 4 * stack s + 2
    | Inr (Inr (d, s)) \<Rightarrow> 4 * stack s + 1)")
  apply (auto simp add: new_Date_def)
  done

declare downloadTrackingData.simps [simp del]
declare click_listener.simps [simp del]
declare logEvent.simps [simp del]
declare saveEventToFile.simps [simp del]

text \<open>The handler of \<^verbatim>\<open>DOMContentLoaded\<close>, lines 6 to 20: the page view is logged before
  the click listener is registered.\<close>

definition domContentLoaded :: "string \<Rightarrow> world \<Rightarrow> world" where
  "domContentLoaded title s = (logEvent ''view'' ''page'' title s)\<lparr>listening := True\<rparr>"

subsection \<open>The section observer\<close>

text \<open>An \<^verbatim>\<open>IntersectionObserverEntry\<close>, with the two properties the callback reads.\<close>

record entry =
  target :: element
  isIntersecting :: bool

text \<open>The body of the callback for one entry, lines 26 to 30.\<close>

definition sectionObserver_entry :: "entry \<Rightarrow> world \<Rightarrow> world" where
  "sectionObserver_entry en s =
     (if isIntersecting en then
        (let sectionId = (if truthy (id_prop (target en)) then id_prop (target en)
                          else ''unnamed-section'')
         in logEvent ''view'' ''section'' sectionId s)
      else s)"

text \<open>One call of the observer's callback (lines 24 to 32, \<^verbatim>\<open>entries.forEach\<close>), and the
  calls the browser makes one after the other.\<close>

definition sectionObserver :: "entry list \<Rightarrow> world \<Rightarrow> world" where
  "sectionObserver entries s = fold sectionObserver_entry entries s"

definition sectionObserver_calls :: "entry list list \<Rightarrow> world \<Rightarrow> world" where
  "sectionObserver_calls calls s = fold sectionObserver calls s"

text \<open>The calls of \<^verbatim>\<open>saveEventToFile\<close> that a run of events makes, in the order the
  events fire.\<close>

definition saveEvents :: "string list \<Rightarrow> world \<Rightarrow> world" where
  "saveEvents ds s = fold saveEventToFile ds s"

subsection \<open>Notions for the statements and proofs\<close>

text \<open>The anchor that an export starting in \<open>s\<close> builds (lines 165 to 170), and the world
  after lines 146 to 153 of \<^verbatim>\<open>saveEventToFile\<close>: the beacon sent and the record
  appended.\<close>

definition export_anchor :: "world \<Rightarrow> anchor" where
  "export_anchor s =
     \<lparr>href = ''data:text/plain;charset=utf-8,'' @ encodeURIComponent (getItem_or_empty s),
      download = ''tracking_data_'' @ slice0 10 (toISOString (clock s (reads s))) @ ''.txt''\<rparr>"

definition appended :: "string \<Rightarrow> world \<Rightarrow> world" where
  "appended d s =
     s\<lparr>beacons := beacons s @
         [(''/tracking-endpoint'', \<lparr>parts = d @ newline, blob_type = ''text/plain''\<rparr>)],
       trackingEvents := Some (getItem_or_empty s @ d @ newline)\<rparr>"

text \<open>What every function of the cycle leaves alone or only extends.\<close>

definition extends :: "world \<Rightarrow> world \<Rightarrow> bool" where
  "extends s s' \<longleftrightarrow>
     clock s' = clock s \<and> listening s' = listening s \<and> stack s' = stack s \<and>
     reads s \<le> reads s' \<and> prefix (console s) (console s') \<and>
     prefix (beacons s) (beacons s') \<and> prefix (clicked s) (clicked s') \<and>
     prefix (uncaught s) (uncaught s')"

text \<open>A console line that the click listener writes for the click on a download anchor;
  the id under which the observer logs a section; and the lines that one intersecting
  entry leaves on the console, its record first.\<close>

definition is_export_click :: "string \<Rightarrow> bool" where
  "is_export_click l \<longleftrightarrow> suffix '', click, link:a'' l"

definition sectionId :: "entry \<Rightarrow> string" where
  "sectionId en =
     (if id_prop (target en) = [] then ''unnamed-section'' else id_prop (target en))"

definition section_group :: "(nat \<Rightarrow> date) \<Rightarrow> string list \<Rightarrow> entry \<Rightarrow> bool" where
  "section_group c g en \<longleftrightarrow>
     (\<exists>n extra. g = (toISOString (c n) @ '', view, section:'' @ sectionId en) # extra \<and>
        list_all is_export_click extra)"

subsection \<open>The classification policy as the specification words it\<close>

text \<open>
  The specification gives the classifier as a list of rules of which the first that
  applies wins, with the lower-case tag name as the fallback. The rule list takes the
  reading of ``contained in'' as a parameter: \<open>in_ancestor\<close> asks for an ancestor
  element of that name, \<open>is_or_in\<close> also accepts the element itself. The rules before
  the class-name checks are \<open>early_rules\<close>, the class-name checks \<open>class_rules\<close>.
\<close>

fun first_match ::
  "((element \<Rightarrow> bool) \<times> (element \<Rightarrow> string)) list \<Rightarrow> (element \<Rightarrow> string) \<Rightarrow> element \<Rightarrow> string"
where
  "first_match [] fallback e = fallback e"
| "first_match ((applies, category) # rules) fallback e =
     (if applies e then category e else first_match rules fallback e)"

definition tag_is :: "string \<Rightarrow> element \<Rightarrow> bool" where
  "tag_is t e \<longleftrightarrow> toLowerCase (tagName e) = t"

definition class_has :: "string \<Rightarrow> element \<Rightarrow> bool" where
  "class_has sub e =
     (case className e of
        ClassString c \<Rightarrow> includes_str c sub
      | SVGAnimatedString b \<Rightarrow> includes_str b sub)"

definition in_ancestor :: "string \<Rightarrow> element \<Rightarrow> bool" where
  "in_ancestor t e = list_ex (\<lambda>n. n = t) (ancestors e)"

definition is_or_in :: "string \<Rightarrow> element \<Rightarrow> bool" where
  "is_or_in t e = list_ex (\<lambda>n. n = t) (localName e # ancestors e)"

definition input_category :: "element \<Rightarrow> string" where
  "input_category e =
     (case type_prop e of
        None \<Rightarrow> ''input''
      | Some t \<Rightarrow> if t = [] then ''input'' else ''input-'' @ t)"

definition early_rules ::
  "(string \<Rightarrow> element \<Rightarrow> bool) \<Rightarrow> ((element \<Rightarrow> bool) \<times> (element \<Rightarrow> string)) list" where
  "early_rules inside =
     [(tag_is ''a'', \<lambda>e. ''link''),
      (tag_is ''button'', \<lambda>e. ''button''),
      (tag_is ''img'', \<lambda>e. ''image''),
      (tag_is ''input'', input_category),
      (tag_is ''select'', \<lambda>e. ''dropdown''),
      (tag_is ''textarea'', \<lambda>e. ''textarea''),
      (inside ''nav'', \<lambda>e. ''navigation''),
      (tag_is ''li'', \<lambda>e. ''list-item''),
      (\<lambda>e. list_ex (\<lambda>h. tag_is h e) [''h1'', ''h2'', ''h3'', ''h4'', ''h5'', ''h6''],
       \<lambda>e. ''heading''),
      (inside ''form'', \<lambda>e. ''form-element'')]"

definition class_rules :: "((element \<Rightarrow> bool) \<times> (element \<Rightarrow> string)) list" where
  "class_rules =
     [(class_has ''btn'', \<lambda>e. ''button''),
      (class_has ''card'', \<lambda>e. ''card''),
      (class_has ''icon'', \<lambda>e. ''icon'')]"

definition classifier_rules ::
  "(string \<Rightarrow> element \<Rightarrow> bool) \<Rightarrow> ((element \<Rightarrow> bool) \<times> (element \<Rightarrow> string)) list" where
  "classifier_rules inside = early_rules inside @ class_rules"

text \<open>Some rule before the class-name checks applies to the element.\<close>

definition early_rule_applies :: "(string \<Rightarrow> element \<Rightarrow> bool) \<Rightarrow> element \<Rightarrow> bool" where
  "early_rule_applies inside e = list_ex (\<lambda>r. fst r e) (early_rules inside)"

definition spec_classify :: "(string \<Rightarrow> element \<Rightarrow> bool) \<Rightarrow> element \<Rightarrow> string" where
  "spec_classify inside e =
     first_match (classifier_rules inside) (\<lambda>e. toLowerCase (tagName e)) e"

subsection \<open>Example elements and pages\<close>

definition submit_button :: element where
  "submit_button = \<lparr>tagName = ''BUTTON'', localName = ''button'', id_prop = ''submit-btn'',
     className = ClassString ''btn primary'', textContent = ''Submit'',
     type_prop = Some ''submit'', alt = None, src = None,
     ancestors = [''form'', ''body'', ''html'']\<rparr>"

definition long_paragraph :: element where
  "long_paragraph = \<lparr>tagName = ''P'', localName = ''p'', id_prop = [],
     className = ClassString [],
     textContent = ''  Read the full story about our product launch  '',
     type_prop = None, alt = None, src = None,
     ancestors = [''main'', ''body'', ''html'']\<rparr>"

definition blank_div :: element where
  "blank_div = \<lparr>tagName = ''DIV'', localName = ''div'', id_prop = [],
     className = ClassString ''hero-banner big'',
     textContent = [CHR '' '', CHR 0x0A, CHR '' ''],
     type_prop = None, alt = None, src = None,
     ancestors = [''main'', ''body'', ''html'']\<rparr>"

text \<open>Three elements with no id, no class and white space as their text: an image with
  an alt text, an image with a source only, and a span.\<close>

definition blank_logo :: element where
  "blank_logo = \<lparr>tagName = ''IMG'', localName = ''img'', id_prop = [],
     className = ClassString [], textContent = '' '',
     type_prop = None, alt = Some ''Company logo'', src = Some ''https://example.org/img/logo.png'',
     ancestors = [''header'', ''body'', ''html'']\<rparr>"

definition blank_photo :: element where
  "blank_photo = \<lparr>tagName = ''IMG'', localName = ''img'', id_prop = [],
     className = ClassString [], textContent = '' '',
     type_prop = None, alt = Some [], src = Some ''https://example.org/img/team.jpg'',
     ancestors = [''main'', ''body'', ''html'']\<rparr>"

definition blank_span :: element where
  "blank_span = \<lparr>tagName = ''SPAN'', localName = ''span'', id_prop = [],
     className = ClassString [], textContent = [CHR 0x09, CHR '' ''],
     type_prop = None, alt = None, src = None,
     ancestors = [''p'', ''main'', ''body'', ''html'']\<rparr>"

text \<open>An element named \<^verbatim>\<open>img\<close> outside the HTML namespace: it has neither \<^verbatim>\<open>alt\<close> nor
  \<^verbatim>\<open>src\<close>, and its \<^verbatim>\<open>className\<close> is an object.\<close>

definition foreign_img :: element where
  "foreign_img = \<lparr>tagName = ''img'', localName = ''img'', id_prop = [],
     className = SVGAnimatedString [], textContent = '' '',
     type_prop = None, alt = None, src = None,
     ancestors = [''svg'', ''body'', ''html'']\<rparr>"

definition nav_bar :: element where
  "nav_bar = \<lparr>tagName = ''NAV'', localName = ''nav'', id_prop = [],
     className = ClassString ''navbar'', textContent = ''Home About'', type_prop = None,
     alt = None, src = None, ancestors = [''header'', ''body'', ''html'']\<rparr>"

text \<open>An HTML element created with the local name \<^verbatim>\<open>NAV\<close> in upper case: the selector
  \<^verbatim>\<open>nav\<close> does not match it.\<close>

definition upper_nav :: element where
  "upper_nav = \<lparr>tagName = ''NAV'', localName = ''NAV'', id_prop = [],
     className = ClassString [], textContent = [], type_prop = None,
     alt = None, src = None, ancestors = [''body'', ''html'']\<rparr>"

definition card_div :: element where
  "card_div = \<lparr>tagName = ''DIV'', localName = ''div'', id_prop = [],
     className = ClassString ''card shadow'', textContent = ''Pricing'', type_prop = None,
     alt = None, src = None, ancestors = [''main'', ''body'', ''html'']\<rparr>"

text \<open>An inline \<^verbatim>\<open><svg class="logo">\<close> in a \<^verbatim>\<open>div\<close>: its tag name is lower case and its
  \<^verbatim>\<open>className\<close> is an object.\<close>

definition svg_icon :: element where
  "svg_icon = \<lparr>tagName = ''svg'', localName = ''svg'', id_prop = [],
     className = SVGAnimatedString ''logo'', textContent = [], type_prop = None,
     alt = None, src = None, ancestors = [''div'', ''body'', ''html'']\<rparr>"

text \<open>An SVG path inside a navigation bar: a rule before the class-name checks
  applies.\<close>

definition svg_in_nav :: element where
  "svg_in_nav = \<lparr>tagName = ''path'', localName = ''path'', id_prop = [],
     className = SVGAnimatedString ''stroke'', textContent = [], type_prop = None,
     alt = None, src = None, ancestors = [''svg'', ''a'', ''nav'', ''body'', ''html'']\<rparr>"

definition hero_section :: element where
  "hero_section = \<lparr>tagName = ''SECTION'', localName = ''section'', id_prop = ''hero'',
     className = ClassString ''hero'', textContent = ''Welcome'', type_prop = None,
     alt = None, src = None, ancestors = [''main'', ''body'', ''html'']\<rparr>"

definition about_section :: element where
  "about_section = \<lparr>tagName = ''SECTION'', localName = ''section'', id_prop = ''about'',
     className = ClassString [], textContent = ''About us'', type_prop = None,
     alt = None, src = None, ancestors = [''main'', ''body'', ''html'']\<rparr>"

text \<open>The hero section scrolls into view, out of view and into view again.\<close>

definition hero_calls :: "entry list list" where
  "hero_calls = [[\<lparr>target = hero_section, isIntersecting = True\<rparr>],
                 [\<lparr>target = hero_section, isIntersecting = False\<rparr>],
                 [\<lparr>target = hero_section, isIntersecting = True\<rparr>]]"

text \<open>A page with two sections: both are in view at first, then the hero section
  leaves.\<close>

definition two_section_calls :: "entry list list" where
  "two_section_calls =
     [[\<lparr>target = hero_section, isIntersecting = True\<rparr>,
       \<lparr>target = about_section, isIntersecting = True\<rparr>],
      [\<lparr>target = hero_section, isIntersecting = False\<rparr>]]"

definition march_clock :: "nat \<Rightarrow> date" where
  "march_clock n = \<lparr>year = 2024, month = 3, day = 7, hours = 9, minutes = 5,
     seconds = n, milliseconds = 0\<rparr>"


text \<open>A loaded page on its first visit, and a loaded page whose buffer holds 10001
  characters and whose call stack has room for one nested listener call.\<close>

definition fresh_world :: world where
  "fresh_world = \<lparr>clock = march_clock, reads = 0, console = [], beacons = [],
     trackingEvents = None, clicked = [], listening = True, stack = 8, uncaught = []\<rparr>"

definition long_buffer :: string where
  "long_buffer = replicate 10001 CHR ''x''"

definition full_world :: world where
  "full_world = \<lparr>clock = march_clock, reads = 0, console = [], beacons = [],
     trackingEvents = Some long_buffer, clicked = [], listening = True, stack = 1,
     uncaught = []\<rparr>"


definition three_records :: "string list" where
  "three_records =
     [''t1, view, page:Home'', ''t2, click, link:#about'', ''t3, view, section:hero'']"

section \<open>Properties of the describer\<close>

lemmas lower_case_simps = toLowerCase_def toLowerCase_char_def upper_chars_def lower_chars_def

lemma trim_Nil_iff: "trim s = [] \<longleftrightarrow> (\<forall>c \<in> set s. is_white_space c)"
proof
  assume "trim s = []"
  then have all: "\<forall>c \<in> set (dropWhile is_white_space s). is_white_space c"
    by (simp add: trim_def)
  have "dropWhile is_white_space s = []"
  proof (rule ccontr)
    assume ne: "dropWhile is_white_space s \<noteq> []"
    then have "\<not> is_white_space (hd (dropWhile is_white_space s))"
      by (rule hd_dropWhile)
    moreover from ne have "hd (dropWhile is_white_space s) \<in> set (dropWhile is_white_space s)"
      by simp
    ultimately show False using all by blast
  qed
  then show "\<forall>c \<in> set s. is_white_space c"
    by simp
next
  assume "\<forall>c \<in> set s. is_white_space c"
  then have "dropWhile is_white_space s = []"
    by simp
  then show "trim s = []"
    unfolding trim_def by (simp only: rev.simps dropWhile.simps)
qed

lemma trim_nonempty: "trim s \<noteq> [] \<Longrightarrow> s \<noteq> []"
  by (auto simp add: trim_def)

text \<open>
  C4. An element whose id is a non-empty string is described by \<open>#\<close> followed by the
  id, whatever its text content, class, tag name, alt and src are.
\<close>

theorem getElementDescription_id:
  assumes "id_prop e \<noteq> []"
  shows "getElementDescription e = Inr (''#'' @ id_prop e)"
  using assms by (simp add: getElementDescription_def truthy_def)

theorem getElementDescription_id_witness:
  "id_prop submit_button \<noteq> [] \<and> getElementDescription submit_button = Inr ''#submit-btn''"
  using getElementDescription_id [of submit_button] by (simp add: submit_button_def)

text \<open>
  C5. For an element with an empty id whose trimmed text content is not empty, the
  description is the first 27 characters of the trimmed text followed by three dots when
  the trimmed text is longer than 30 characters, and the trimmed text itself otherwise.
\<close>

theorem getElementDescription_text:
  assumes "id_prop e = []" and "trim (textContent e) \<noteq> []"
  shows "getElementDescription e =
    Inr (if length (trim (textContent e)) > 30
         then take 27 (trim (textContent e)) @ ''...''
         else trim (textContent e))"
  using assms trim_nonempty [of "textContent e"]
  by (simp add: getElementDescription_def truthy_def substring0_def Let_def)

theorem getElementDescription_text_witness:
  "id_prop long_paragraph = [] \<and> trim (textContent long_paragraph) \<noteq> [] \<and>
   length (trim (textContent long_paragraph)) = 44 \<and>
   getElementDescription long_paragraph = Inr ''Read the full story about o...'' \<and>
   id_prop card_div = [] \<and> trim (textContent card_div) \<noteq> [] \<and>
   getElementDescription card_div = Inr ''Pricing''"
  using getElementDescription_text [of long_paragraph] getElementDescription_text [of card_div]
  by (simp add: long_paragraph_def card_div_def trim_def is_white_space_def)

text \<open>
  C10. For an element with an empty id whose text content is not empty and consists of
  white space only, the text rule gives no description and the result is that of the
  rules after it: the dot-joined class list when the class name is a non-empty string;
  without one, for an image, the alt text or, when that is missing or empty, the last
  path segment of the source (a TypeError when there is no source to split); and for
  any other element the lower-case tag name. Whenever the text rule applies, the
  description has at most 30 characters.
\<close>

theorem getElementDescription_blank_text:
  assumes "id_prop e = []"
  shows "(textContent e \<noteq> [] \<and> (\<forall>ch \<in> set (textContent e). is_white_space ch) \<longrightarrow>
            (\<forall>c. className e = ClassString c \<and> c \<noteq> [] \<longrightarrow>
               getElementDescription e = Inr (''.'' @ join ''.'' (split CHR '' '' c))) \<and>
            (className e = ClassString [] \<or> (\<exists>b. className e = SVGAnimatedString b) \<longrightarrow>
               (toLowerCase (tagName e) = ''img'' \<longrightarrow>
                  (\<forall>a. alt e = Some a \<and> a \<noteq> [] \<longrightarrow> getElementDescription e = Inr a) \<and>
                  (alt e = None \<or> alt e = Some [] \<longrightarrow>
                     (\<forall>u. src e = Some u \<longrightarrow>
                        getElementDescription e = Inr (last (split CHR ''/'' u))) \<and>
                     (src e = None \<longrightarrow> getElementDescription e = Inl TypeError))) \<and>
               (toLowerCase (tagName e) \<noteq> ''img'' \<longrightarrow>
                  getElementDescription e = Inr (toLowerCase (tagName e))))) \<and>
         (trim (textContent e) \<noteq> [] \<longrightarrow>
            (\<exists>d. getElementDescription e = Inr d \<and> length d \<le> 30))"
proof -
  have blank: "getElementDescription e = describe_without_text e"
    if "\<forall>ch \<in> set (textContent e). is_white_space ch"
  proof -
    from that have "trim (textContent e) = []" by (simp add: trim_Nil_iff)
    with assms show ?thesis
      by (simp add: getElementDescription_def truthy_def Let_def)
  qed
  have cls: "describe_without_text e = Inr (''.'' @ join ''.'' (split CHR '' '' c))"
    if "className e = ClassString c \<and> c \<noteq> []" for c
    using that by (simp add: describe_without_text_def truthy_def)
  have no_cls: "(if truthy_class (className e) then typeof_string (className e) else None) = None"
    if "className e = ClassString [] \<or> (\<exists>b. className e = SVGAnimatedString b)"
    using that by (auto simp add: truthy_def)
  have alt_text: "describe_without_text e = Inr a"
    if "className e = ClassString [] \<or> (\<exists>b. className e = SVGAnimatedString b)"
      and "toLowerCase (tagName e) = ''img''" and "alt e = Some a \<and> a \<noteq> []" for a
    using that(2,3) by (simp add: describe_without_text_def no_cls [OF that(1)] truthy_def)
  have src_name: "describe_without_text e = Inr (last (split CHR ''/'' u))"
    if "className e = ClassString [] \<or> (\<exists>b. className e = SVGAnimatedString b)"
      and "toLowerCase (tagName e) = ''img''" and "alt e = None \<or> alt e = Some []"
      and "src e = Some u" for u
    using that(2,3,4)
    by (auto simp add: describe_without_text_def no_cls [OF that(1)] truthy_def)
  have no_src: "describe_without_text e = Inl TypeError"
    if "className e = ClassString [] \<or> (\<exists>b. className e = SVGAnimatedString b)"
      and "toLowerCase (tagName e) = ''img''" and "alt e = None \<or> alt e = Some []"
      and "src e = None"
    using that(2,3,4)
    by (auto simp add: describe_without_text_def no_cls [OF that(1)] truthy_def)
  have tag: "describe_without_text e = Inr (toLowerCase (tagName e))"
    if "className e = ClassString [] \<or> (\<exists>b. className e = SVGAnimatedString b)"
      and "toLowerCase (tagName e) \<noteq> ''img''"
    using that(2) by (simp add: describe_without_text_def no_cls [OF that(1)])
  have short: "\<exists>d. getElementDescription e = Inr d \<and> length d \<le> 30"
    if "trim (textContent e) \<noteq> []"
    using assms that trim_nonempty [OF that]
    by (simp add: getElementDescription_def truthy_def substring0_def Let_def)
  show ?thesis
  proof (intro conjI impI allI)
    fix c
    assume "textContent e \<noteq> [] \<and> (\<forall>ch \<in> set (textContent e). is_white_space ch)"
      and "className e = ClassString c \<and> c \<noteq> []"
    then show "getElementDescription e = Inr (''.'' @ join ''.'' (split CHR '' '' c))"
      using blank cls by simp
  next
    fix a
    assume "textContent e \<noteq> [] \<and> (\<forall>ch \<in> set (textContent e). is_white_space ch)"
      and "className e = ClassString [] \<or> (\<exists>b. className e = SVGAnimatedString b)"
      and "toLowerCase (tagName e) = ''img''" and "alt e = Some a \<and> a \<noteq> []"
    then show "getElementDescription e = Inr a"
      using blank alt_text by simp
  next
    fix u
    assume "textContent e \<noteq> [] \<and> (\<forall>ch \<in> set (textContent e). is_white_space ch)"
      and "className e = ClassString [] \<or> (\<exists>b. className e = SVGAnimatedString b)"
      and "toLowerCase (tagName e) = ''img''" and "alt e = None \<or> alt e = Some []"
      and "src e = Some u"
    then show "getElementDescription e = Inr (last (split CHR ''/'' u))"
      using blank src_name by simp
  next
    assume "textContent e \<noteq> [] \<and> (\<forall>ch \<in> set (textContent e). is_white_space ch)"
      and "className e = ClassString [] \<or> (\<exists>b. className e = SVGAnimatedString b)"
      and "toLowerCase (tagName e) = ''img''" and "alt e = None \<or> alt e = Some []"
      and "src e = None"
    then show "getElementDescription e = Inl TypeError"
      using blank no_src by simp
  next
    assume "textContent e \<noteq> [] \<and> (\<forall>ch \<in> set (textContent e). is_white_space ch)"
      and "className e = ClassString [] \<or> (\<exists>b. className e = SVGAnimatedString b)"
      and "toLowerCase (tagName e) \<noteq> ''img''"
    then show "getElementDescription e = Inr (toLowerCase (tagName e))"
      using blank tag by simp
  next
    assume "trim (textContent e) \<noteq> []"
    then show "\<exists>d. getElementDescription e = Inr d \<and> length d \<le> 30"
      by (rule short)
  qed
qed

theorem getElementDescription_blank_text_witness:
  "id_prop blank_div = [] \<and> textContent blank_div \<noteq> [] \<and>
   list_all is_white_space (textContent blank_div) \<and>
   getElementDescription blank_div = Inr ''.hero-banner.big'' \<and>
   getElementDescription blank_logo = Inr ''Company logo'' \<and>
   getElementDescription blank_photo = Inr ''team.jpg'' \<and>
   getElementDescription blank_span = Inr ''span'' \<and>
   getElementDescription foreign_img = Inl TypeError \<and>
   id_prop long_paragraph = [] \<and> trim (textContent long_paragraph) \<noteq> [] \<and>
   length (projr (getElementDescription long_paragraph)) = 30"
proof -
  have div: "id_prop blank_div = []" "textContent blank_div \<noteq> []"
    "list_all is_white_space (textContent blank_div)"
    "className blank_div = ClassString ''hero-banner big'' \<and> ''hero-banner big'' \<noteq> []"
    by (simp_all add: blank_div_def is_white_space_def)
  from getElementDescription_blank_text [OF div(1)] div(2,3,4)
  have "getElementDescription blank_div =
      Inr (''.'' @ join ''.'' (split CHR '' '' ''hero-banner big''))"
    unfolding list_all_iff by blast
  then have 1: "getElementDescription blank_div = Inr ''.hero-banner.big''" by simp
  have logo: "id_prop blank_logo = []"
    "textContent blank_logo \<noteq> [] \<and> (\<forall>ch \<in> set (textContent blank_logo). is_white_space ch)"
    "className blank_logo = ClassString [] \<or> (\<exists>b. className blank_logo = SVGAnimatedString b)"
    "toLowerCase (tagName blank_logo) = ''img''"
    "alt blank_logo = Some ''Company logo'' \<and> ''Company logo'' \<noteq> []"
    by (simp_all add: blank_logo_def is_white_space_def lower_case_simps)
  from getElementDescription_blank_text [OF logo(1)] logo(2-5)
  have 2: "getElementDescription blank_logo = Inr ''Company logo''" by blast
  have photo: "id_prop blank_photo = []"
    "textContent blank_photo \<noteq> [] \<and> (\<forall>ch \<in> set (textContent blank_photo). is_white_space ch)"
    "className blank_photo = ClassString [] \<or> (\<exists>b. className blank_photo = SVGAnimatedString b)"
    "toLowerCase (tagName blank_photo) = ''img''"
    "alt blank_photo = None \<or> alt blank_photo = Some []"
    "src blank_photo = Some ''https://example.org/img/team.jpg''"
    by (simp_all add: blank_photo_def is_white_space_def lower_case_simps)
  from getElementDescription_blank_text [OF photo(1)] photo(2-6)
  have "getElementDescription blank_photo =
      Inr (last (split CHR ''/'' ''https://example.org/img/team.jpg''))" by blast
  then have 3: "getElementDescription blank_photo = Inr ''team.jpg''" by simp
  have span: "id_prop blank_span = []"
    "textContent blank_span \<noteq> [] \<and> (\<forall>ch \<in> set (textContent blank_span). is_white_space ch)"
    "className blank_span = ClassString [] \<or> (\<exists>b. className blank_span = SVGAnimatedString b)"
    "toLowerCase (tagName blank_span) \<noteq> ''img''"
    "toLowerCase (tagName blank_span) = ''span''"
    by (simp_all add: blank_span_def is_white_space_def lower_case_simps)
  from getElementDescription_blank_text [OF span(1)] span(2-4)
  have "getElementDescription blank_span = Inr (toLowerCase (tagName blank_span))" by blast
  then have 4: "getElementDescription blank_span = Inr ''span''" by (simp only: span(5))
  have img: "id_prop foreign_img = []"
    "textContent foreign_img \<noteq> [] \<and> (\<forall>ch \<in> set (textContent foreign_img). is_white_space ch)"
    "className foreign_img = ClassString [] \<or> (\<exists>b. className foreign_img = SVGAnimatedString b)"
    "toLowerCase (tagName foreign_img) = ''img''"
    "alt foreign_img = None \<or> alt foreign_img = Some []"
    "src foreign_img = None"
    by (simp_all add: foreign_img_def is_white_space_def lower_case_simps)
  from getElementDescription_blank_text [OF img(1)] img(2-6)
  have 5: "getElementDescription foreign_img = Inl TypeError" by blast
  have par: "id_prop long_paragraph = []" "trim (textContent long_paragraph) \<noteq> []"
    by (simp_all add: long_paragraph_def trim_def is_white_space_def)
  from getElementDescription_blank_text [OF par(1)] par(2)
  obtain x where "getElementDescription long_paragraph = Inr x" and "length x \<le> 30" by blast
  moreover have "length (projr (getElementDescription long_paragraph)) \<ge> 30"
    by (simp add: getElementDescription_def long_paragraph_def truthy_def trim_def
        is_white_space_def substring0_def)
  ultimately have 6: "length (projr (getElementDescription long_paragraph)) = 30" by simp
  from div(1-3) 1 2 3 4 5 par 6 show ?thesis by simp
qed

section \<open>Properties of the classifier\<close>

lemma closest_None_iff: "closest t e = None \<longleftrightarrow> \<not> is_or_in t e"
  unfolding closest_def is_or_in_def find_None_iff list_ex_iff by blast

text \<open>
  C2. The classifier is meant to return a non-empty category for every element without
  throwing, elements with a non-string \<^verbatim>\<open>className\<close> included. On the inline SVG
  element \<open>svg_icon\<close>, which is neither one of the mapped tags nor inside a \<^verbatim>\<open>nav\<close> or a
  \<^verbatim>\<open>form\<close>, the class check calls \<^verbatim>\<open>includes\<close> on an object that has no such method,
  and the classifier throws a TypeError instead of returning.
\<close>

theorem determineElementType_svg_throws:
  "determineElementType svg_icon = Inl TypeError"
  by (simp add: determineElementType_def svg_icon_def closest_def lower_case_simps)

text \<open>
  C6, as stated, with ``contained in a nav ancestor'' read as having an ancestor element
  \<^verbatim>\<open>nav\<close>: it fails on a \<^verbatim>\<open>nav\<close> element that has no \<^verbatim>\<open>nav\<close> above it. The policy falls
  through to the tag name \<open>nav\<close>, the classifier answers \<open>navigation\<close>, because
  \<^verbatim>\<open>closest\<close> starts at the element itself.
\<close>

theorem determineElementType_nav_itself:
  "determineElementType nav_bar = Inr ''navigation'' \<and>
   spec_classify in_ancestor nav_bar = ''nav''"
  by (simp add: determineElementType_def nav_bar_def closest_def lower_case_simps
      spec_classify_def classifier_rules_def early_rules_def class_rules_def tag_is_def
      in_ancestor_def class_has_def)

lemma determineElementType_string_class:
  assumes "className e = ClassString c"
  shows "determineElementType e = Inr (spec_classify is_or_in e)"
  using assms
  by (simp add: determineElementType_def spec_classify_def classifier_rules_def
      early_rules_def class_rules_def tag_is_def
      closest_None_iff class_has_def input_category_def truthy_def Let_def
      split: option.split)

lemma early_rule_applies_cases:
  assumes "early_rule_applies is_or_in e"
  shows "toLowerCase (tagName e) \<in> set [''a'', ''button'', ''img'', ''input'', ''select'',
           ''textarea'', ''li'', ''h1'', ''h2'', ''h3'', ''h4'', ''h5'', ''h6''] \<or>
         is_or_in ''nav'' e \<or> is_or_in ''form'' e"
  using assms by (auto simp add: early_rule_applies_def early_rules_def tag_is_def)

lemma determineElementType_early_rule:
  assumes "early_rule_applies is_or_in e"
  shows "determineElementType e = Inr (spec_classify is_or_in e)"
proof -
  have tag: "determineElementType e = Inr (spec_classify is_or_in e)"
    if "toLowerCase (tagName e) = t"
      and "t \<in> set [''a'', ''button'', ''img'', ''input'', ''select'',
           ''textarea'', ''li'', ''h1'', ''h2'', ''h3'', ''h4'', ''h5'', ''h6'']" for t
    using that(2) that(1)
    by (auto simp add: determineElementType_def spec_classify_def classifier_rules_def
        early_rules_def tag_is_def closest_None_iff input_category_def truthy_def
        split: option.split)
  have nav: "determineElementType e = Inr (spec_classify is_or_in e)"
    if "is_or_in ''nav'' e"
    using that
    by (simp add: determineElementType_def spec_classify_def classifier_rules_def
        early_rules_def tag_is_def closest_None_iff input_category_def truthy_def Let_def
        split: option.split)
  have form: "determineElementType e = Inr (spec_classify is_or_in e)"
    if "is_or_in ''form'' e"
    using that
    by (simp add: determineElementType_def spec_classify_def classifier_rules_def
        early_rules_def tag_is_def closest_None_iff input_category_def truthy_def Let_def
        split: option.split)
  from early_rule_applies_cases [OF assms] tag nav form show ?thesis by blast
qed

text \<open>
  C6, amended. The classifier returns the category of the first rule that applies, in
  this order: the tag mapping (a, button, img, input with its type, select, textarea),
  the element being a \<^verbatim>\<open>nav\<close> element or lying inside one, the tag li, the tags h1 to
  h6, the element being a \<^verbatim>\<open>form\<close> element or lying inside one, the class-name
  substrings btn, card and icon, and last the lower-case tag name. This holds for every
  element whose \<^verbatim>\<open>className\<close> is a string and for every element to which a rule before
  the class-name checks applies, whatever its \<^verbatim>\<open>className\<close> is.
\<close>

theorem determineElementType_first_match:
  assumes "typeof_string (className e) \<noteq> None \<or> early_rule_applies is_or_in e"
  shows "determineElementType e = Inr (spec_classify is_or_in e)"
proof -
  from assms consider c where "className e = ClassString c" | "early_rule_applies is_or_in e"
    by (cases "className e") auto
  then show ?thesis
    by cases (simp_all add: determineElementType_string_class determineElementType_early_rule)
qed

theorem determineElementType_first_match_witness:
  "typeof_string (className card_div) \<noteq> None \<and>
   determineElementType card_div = Inr ''card'' \<and>
   typeof_string (className upper_nav) \<noteq> None \<and>
   determineElementType upper_nav = Inr ''nav'' \<and>
   early_rule_applies is_or_in svg_in_nav \<and>
   determineElementType svg_in_nav = Inr ''navigation''"
proof -
  have h: "typeof_string (className card_div) \<noteq> None"
    by (simp add: card_div_def)
  have k: "typeof_string (className upper_nav) \<noteq> None"
    by (simp add: upper_nav_def)
  have m: "early_rule_applies is_or_in svg_in_nav"
    by (simp add: svg_in_nav_def early_rule_applies_def early_rules_def is_or_in_def)
  have "spec_classify is_or_in card_div = ''card''"
    by (simp add: card_div_def lower_case_simps spec_classify_def classifier_rules_def
        early_rules_def class_rules_def tag_is_def is_or_in_def class_has_def)
  moreover have "spec_classify is_or_in upper_nav = ''nav''"
    by (simp add: upper_nav_def lower_case_simps spec_classify_def classifier_rules_def
        early_rules_def class_rules_def tag_is_def is_or_in_def class_has_def)
  moreover have "spec_classify is_or_in svg_in_nav = ''navigation''"
    by (simp add: svg_in_nav_def lower_case_simps spec_classify_def classifier_rules_def
        early_rules_def class_rules_def tag_is_def is_or_in_def class_has_def)
  ultimately show ?thesis
    using h k m determineElementType_first_match [of card_div]
      determineElementType_first_match [of upper_nav]
      determineElementType_first_match [of svg_in_nav]
    by simp
qed

section \<open>A data URL built with \<^verbatim>\<open>encodeURIComponent\<close> is read back unchanged\<close>

lemma upt_16: "[0..<16] = [0, 1, 2, 3, 4, 5, 6, 7, 8, 9, 10, 11, 12, 13, 14, 15::nat]"
  by code_simp

lemma hex_value_digit_list:
  "list_all (\<lambda>k. hex_value (hex_digit k) = Some k)
     [0, 1, 2, 3, 4, 5, 6, 7, 8, 9, 10, 11, 12, 13, 14, 15]"
  by (simp add: hex_digit_def hex_value_def)

lemma hex_value_hex_digit: "hex_value (hex_digit n) = Some (n mod 16)"
proof -
  have "n mod 16 \<in> set [0..<16]" by simp
  moreover have "hex_digit n = hex_digit (n mod 16)" by (simp add: hex_digit_def)
  ultimately show ?thesis
    using hex_value_digit_list unfolding upt_16 list_all_iff by metis
qed

lemma percent_decode_pct_byte:
  assumes "b < 256"
  shows "percent_decode (pct_byte b @ cs) = b # percent_decode cs"
proof -
  have "16 * (b div 16 mod 16) + b mod 16 = b" using assms by simp
  then show ?thesis
    by (simp add: pct_byte_def hex_value_hex_digit)
qed

lemma percent_decode_plain:
  assumes "c \<noteq> CHR ''%''"
  shows "percent_decode (c # cs) = of_char c # percent_decode cs"
proof (cases cs)
  case Nil
  then show ?thesis by simp
next
  case (Cons h t)
  then show ?thesis using assms by (cases t) simp_all
qed

lemma unreserved_list:
  "list_all (\<lambda>c. c \<noteq> CHR ''%'' \<and> (of_char c :: nat) < 128)
     (''ABCDEFGHIJKLMNOPQRSTUVWXYZabcdefghijklmnopqrstuvwxyz0123456789-_.!~*()''
      @ [CHR 0x27])"
  by simp

lemma unreserved_ascii:
  assumes "unreserved c"
  shows "c \<noteq> CHR ''%''" and "(of_char c :: nat) < 128"
  using assms unreserved_list unfolding unreserved_def list_all_iff by blast+

lemma percent_decode_encode_char:
  "percent_decode (encode_char c @ cs) = utf8_bytes c @ percent_decode cs"
proof (cases "unreserved c")
  case True
  then show ?thesis
    by (simp add: encode_char_def utf8_bytes_def unreserved_ascii percent_decode_plain)
next
  case False
  have lt: "(of_char c :: nat) < 256" by (rule nat_of_char_less_256)
  show ?thesis
  proof (cases "(of_char c :: nat) < 128")
    case True
    with False lt show ?thesis
      by (simp add: encode_char_def utf8_bytes_def percent_decode_pct_byte)
  next
    case ge: False
    have a: "192 + (of_char c :: nat) div 64 < 256" using lt by arith
    have b: "128 + (of_char c :: nat) mod 64 < 256" by simp
    from False ge show ?thesis
      by (simp add: encode_char_def utf8_bytes_def Let_def percent_decode_pct_byte [OF a]
          percent_decode_pct_byte [OF b])
  qed
qed

lemma percent_decode_encodeURIComponent:
  "percent_decode (encodeURIComponent s) = concat (map utf8_bytes s)"
  by (induction s) (simp_all add: encodeURIComponent_def percent_decode_encode_char)

lemma utf8_decode_ascii:
  assumes "b < 128"
  shows "utf8_decode (b # bs) = char_of b # utf8_decode bs"
  using assms by (cases bs) simp_all

lemma utf8_decode_utf8_bytes: "utf8_decode (utf8_bytes c @ bs) = c # utf8_decode bs"
proof (cases "(of_char c :: nat) < 128")
  case True
  then show ?thesis by (simp add: utf8_bytes_def utf8_decode_ascii)
next
  case False
  have lt: "(of_char c :: nat) < 256" by (rule nat_of_char_less_256)
  then have "(of_char c :: nat) div 64 < 4" by arith
  moreover have "(of_char c :: nat) div 64 * 64 + of_char c mod 64 = of_char c" by simp
  ultimately show ?thesis using False
    by (simp add: utf8_bytes_def Let_def)
qed

lemma utf8_decode_concat: "utf8_decode (concat (map utf8_bytes s)) = s"
  by (induction s) (simp_all add: utf8_decode_utf8_bytes)

lemma data_url_encodeURIComponent:
  "data_url (''data:text/plain;charset=utf-8,'' @ encodeURIComponent s) =
     Some (''text/plain'', s)"
  by (simp add: data_url_def percent_decode_encodeURIComponent utf8_decode_concat)

lemma encodeURIComponent_example: "encodeURIComponent ''a b,c'' = ''a%20b%2Cc''"
  by (simp add: encodeURIComponent_def encode_char_def unreserved_def utf8_bytes_def
      pct_byte_def hex_digit_def)

section \<open>Properties of the clock\<close>

lemmas iso_simps = toISOString_def pad2_def pad3_def pad4_def pad6_def digit_char_def

lemma toISOString_example:
  "toISOString \<lparr>year = 2024, month = 3, day = 7, hours = 9, minutes = 5, seconds = 0,
     milliseconds = 42\<rparr> = ''2024-03-07T09:05:00.042Z''"
  by (simp add: iso_simps)


section \<open>The cycle of export, click listener, logger and persistence\<close>

lemma getItem_or_empty_simps:
  "getItem_or_empty (s\<lparr>beacons := b\<rparr>) = getItem_or_empty s"
  "getItem_or_empty (s\<lparr>console := c\<rparr>) = getItem_or_empty s"
  "getItem_or_empty (s\<lparr>reads := r\<rparr>) = getItem_or_empty s"
  "getItem_or_empty (s\<lparr>stack := n\<rparr>) = getItem_or_empty s"
  "getItem_or_empty (s\<lparr>clicked := a\<rparr>) = getItem_or_empty s"
  "getItem_or_empty (s\<lparr>trackingEvents := Some v\<rparr>) = v"
  by (simp_all add: getItem_or_empty_def)

lemma saveEventToFile_small:
  assumes "length (getItem_or_empty s) \<le> 10000"
  shows "saveEventToFile d s =
     s\<lparr>beacons := beacons s @
         [(''/tracking-endpoint'', \<lparr>parts = d @ newline, blob_type = ''text/plain''\<rparr>)],
       trackingEvents := Some (getItem_or_empty s @ d @ newline)\<rparr>"
  using assms by (simp add: saveEventToFile.simps Let_def getItem_or_empty_simps)

lemma saveEventToFile_large:
  assumes "length (getItem_or_empty s) > 10000"
  shows "saveEventToFile d s =
     downloadTrackingData
       (s\<lparr>beacons := beacons s @
           [(''/tracking-endpoint'', \<lparr>parts = d @ newline, blob_type = ''text/plain''\<rparr>)],
         trackingEvents := Some (getItem_or_empty s @ d @ newline)\<rparr>)"
  using assms by (simp add: saveEventToFile.simps Let_def getItem_or_empty_simps)

lemma saveEventToFile_cases:
  "saveEventToFile d s =
     (if length (getItem_or_empty s) \<le> 10000 then appended d s
      else downloadTrackingData (appended d s))"
  by (simp add: saveEventToFile_small saveEventToFile_large appended_def)

lemma logEvent_eq:
  "logEvent k t d s =
     saveEventToFile (toISOString (clock s (reads s)) @ '', '' @ k @ '', '' @ t @ '':'' @ d)
       (s\<lparr>reads := Suc (reads s),
          console := console s @
            [toISOString (clock s (reads s)) @ '', '' @ k @ '', '' @ t @ '':'' @ d]\<rparr>)"
  by (simp add: logEvent.simps new_Date_def Let_def)

text \<open>
  The click listener sees the download anchor as a link with the description \<open>a\<close>.
\<close>

lemma download_anchor_type: "determineElementType download_anchor = Inr ''link''"
  by (simp add: determineElementType_def download_anchor_def lower_case_simps)

lemma download_anchor_description: "getElementDescription download_anchor = Inr ''a''"
  by (simp add: getElementDescription_def describe_without_text_def download_anchor_def
      truthy_def lower_case_simps)

lemma click_listener_download_anchor:
  "click_listener download_anchor s = logEvent ''click'' ''link'' ''a'' s"
  by (simp add: click_listener.simps download_anchor_type download_anchor_description)

lemma downloadTrackingData_eq:
  "downloadTrackingData s =
     (if listening s then
        (if stack s = 0 then
           s\<lparr>reads := Suc (reads s), clicked := clicked s @ [export_anchor s],
             uncaught := uncaught s @ [RangeError], trackingEvents := Some []\<rparr>
         else
           (logEvent ''click'' ''link'' ''a''
              (s\<lparr>reads := Suc (reads s), clicked := clicked s @ [export_anchor s],
                 stack := stack s - 1\<rparr>))
             \<lparr>stack := stack s, trackingEvents := Some []\<rparr>)
      else s\<lparr>reads := Suc (reads s), clicked := clicked s @ [export_anchor s],
             trackingEvents := Some []\<rparr>)"
  by (simp add: downloadTrackingData.simps new_Date_def Let_def export_anchor_def
      click_listener_download_anchor)

lemma extends_refl: "extends s s"
  by (simp add: extends_def)

lemma extends_trans: "extends s s' \<Longrightarrow> extends s' s'' \<Longrightarrow> extends s s''"
  unfolding extends_def by (auto intro: prefix_order.trans)

lemma extends_cycle:
  "extends s (downloadTrackingData s)"
  "extends s (click_listener e s)"
  "extends s (logEvent k t d s)"
  "extends s (saveEventToFile d s)"
proof (induction s and e s and k t d s and d s
    rule: downloadTrackingData_click_listener_logEvent_saveEventToFile.induct)
  case (1 s)
  show ?case
  proof (cases "listening s \<and> stack s \<noteq> 0")
    case True
    let ?x = "s\<lparr>reads := Suc (reads s), clicked := clicked s @ [export_anchor s],
                 stack := stack s - 1\<rparr>"
    let ?y = "click_listener download_anchor ?x"
    have "extends ?x ?y"
      using True "1.IH" [OF refl refl refl refl refl]
      by (simp add: new_Date_def export_anchor_def)
    then have "extends s (?y\<lparr>stack := stack s, trackingEvents := Some []\<rparr>)"
      by (auto simp add: extends_def dest: append_prefixD)
    moreover have "downloadTrackingData s = ?y\<lparr>stack := stack s, trackingEvents := Some []\<rparr>"
      using True
      by (simp add: downloadTrackingData.simps [of s] new_Date_def Let_def export_anchor_def)
    ultimately show ?thesis by simp
  next
    case False
    then show ?thesis
      by (auto simp add: downloadTrackingData.simps [of s] new_Date_def Let_def extends_def)
  qed
next
  case (2 clickedElement s)
  then show ?case
    by (auto simp add: click_listener.simps [of clickedElement s] extends_def split: sum.splits)
next
  case (3 eventType objectType objectDescription s)
  let ?e = "toISOString (clock s (reads s)) @ '', '' @ eventType @ '', '' @ objectType @ '':''
            @ objectDescription"
  let ?s2 = "s\<lparr>reads := Suc (reads s), console := console s @ [?e]\<rparr>"
  have "extends ?s2 (saveEventToFile ?e ?s2)"
    using "3.IH" [OF refl refl refl refl refl] by (simp add: new_Date_def)
  moreover have "extends s ?s2" by (simp add: extends_def)
  ultimately show ?case
    unfolding logEvent_eq by (rule extends_trans [rotated])
next
  case (4 eventData s)
  show ?case
  proof (cases "length (getItem_or_empty s) > 10000")
    case True
    let ?s2 = "s\<lparr>beacons := beacons s @
           [(''/tracking-endpoint'', \<lparr>parts = eventData @ newline, blob_type = ''text/plain''\<rparr>)],
         trackingEvents := Some (getItem_or_empty s @ eventData @ newline)\<rparr>"
    have "extends ?s2 (downloadTrackingData ?s2)"
      using True "4.IH" [OF refl refl refl refl] by (simp add: getItem_or_empty_simps)
    moreover have "extends s ?s2" by (simp add: extends_def)
    ultimately show ?thesis
      unfolding saveEventToFile_large [OF True] by (rule extends_trans [rotated])
  next
    case False
    then show ?thesis by (simp add: saveEventToFile_small extends_def)
  qed
qed

lemma clicked_downloadTrackingData:
  "\<exists>rest. clicked (downloadTrackingData s) = clicked s @ export_anchor s # rest"
proof (cases "listening s \<and> stack s \<noteq> 0")
  case True
  let ?x = "s\<lparr>reads := Suc (reads s), clicked := clicked s @ [export_anchor s],
               stack := stack s - 1\<rparr>"
  have "extends ?x (logEvent ''click'' ''link'' ''a'' ?x)" by (rule extends_cycle)
  then obtain rest where
    "clicked (logEvent ''click'' ''link'' ''a'' ?x) = (clicked s @ [export_anchor s]) @ rest"
    by (auto simp add: extends_def prefix_def)
  with True show ?thesis by (simp add: downloadTrackingData_eq)
next
  case False
  then show ?thesis by (auto simp add: downloadTrackingData_eq)
qed

lemma trackingEvents_downloadTrackingData:
  "trackingEvents (downloadTrackingData s) = Some []"
  by (simp add: downloadTrackingData_eq)

lemma clicked_saveEventToFile_large:
  assumes "length (getItem_or_empty s) > 10000"
  shows "\<exists>rest. clicked (saveEventToFile d s) =
     clicked s @ export_anchor (appended d s) # rest"
proof -
  from clicked_downloadTrackingData [of "appended d s"] obtain rest where
    "clicked (downloadTrackingData (appended d s)) =
       clicked (appended d s) @ export_anchor (appended d s) # rest" ..
  with assms show ?thesis by (simp add: saveEventToFile_cases appended_def)
qed

lemma clicked_saveEventToFile_length:
  "length (clicked (saveEventToFile d s)) = length (clicked s) \<longleftrightarrow>
     length (getItem_or_empty s) \<le> 10000"
proof (cases "length (getItem_or_empty s) \<le> 10000")
  case True
  then show ?thesis by (simp add: saveEventToFile_cases appended_def)
next
  case False
  then have "length (getItem_or_empty s) > 10000" by simp
  from clicked_saveEventToFile_large [OF this, of d] False show ?thesis by auto
qed

lemma clicked_length_mono: "extends s s' \<Longrightarrow> length (clicked s) \<le> length (clicked s')"
  by (auto simp add: extends_def prefix_def)

lemma trackingEvents_saveEventToFile:
  "trackingEvents (saveEventToFile d s) = Some (getItem_or_empty (saveEventToFile d s))"
  by (simp add: saveEventToFile_cases appended_def getItem_or_empty_def
      trackingEvents_downloadTrackingData)

text \<open>
  On a page that listens, an export of a buffer longer than the threshold nests as
  deep as the call stack allows: with room for \<open>n\<close> nested listener calls it clicks
  \<open>n + 1\<close> anchors and writes \<open>n\<close> lines to the console, and the innermost click ends
  in a RangeError.
\<close>

lemma export_nesting_stack:
  "stack s = n \<Longrightarrow> listening s \<Longrightarrow> 10000 < length (getItem_or_empty s) \<Longrightarrow>
     length (clicked (downloadTrackingData s)) = length (clicked s) + n + 1 \<and>
     length (console (downloadTrackingData s)) = length (console s) + n \<and>
     uncaught (downloadTrackingData s) = uncaught s @ [RangeError]"
proof (induction n arbitrary: s)
  case 0
  then show ?case by (simp add: downloadTrackingData_eq)
next
  case (Suc n)
  let ?x = "s\<lparr>reads := Suc (reads s), clicked := clicked s @ [export_anchor s],
               stack := stack s - 1\<rparr>"
  let ?e = "toISOString (clock ?x (reads ?x)) @ '', '' @ ''click'' @ '', '' @ ''link''
              @ '':'' @ ''a''"
  let ?x2 = "?x\<lparr>reads := Suc (reads ?x), console := console ?x @ [?e]\<rparr>"
  let ?x3 = "appended ?e ?x2"
  have big: "10000 < length (getItem_or_empty ?x2)"
    using Suc.prems(3) by (simp add: getItem_or_empty_def)
  have dl: "downloadTrackingData s =
      (downloadTrackingData ?x3)\<lparr>stack := stack s, trackingEvents := Some []\<rparr>"
    using Suc.prems big
    by (simp add: downloadTrackingData_eq [of s] logEvent_eq saveEventToFile_cases)
  have "stack ?x3 = n" "listening ?x3" "10000 < length (getItem_or_empty ?x3)"
    using Suc.prems by (simp_all add: appended_def getItem_or_empty_def)
  from Suc.IH [OF this]
  have "length (clicked (downloadTrackingData ?x3)) = length (clicked ?x3) + n + 1"
    and "length (console (downloadTrackingData ?x3)) = length (console ?x3) + n"
    and "uncaught (downloadTrackingData ?x3) = uncaught ?x3 @ [RangeError]"
    by simp_all
  then show ?case
    unfolding dl by (simp add: appended_def)
qed

lemma export_nesting:
  assumes "listening s" and "10000 < length (getItem_or_empty s)"
  shows "length (clicked (saveEventToFile d s)) = length (clicked s) + stack s + 1"
    and "length (console (saveEventToFile d s)) = length (console s) + stack s"
proof -
  have "stack (appended d s) = stack s" "listening (appended d s)"
    "10000 < length (getItem_or_empty (appended d s))"
    using assms by (simp_all add: appended_def getItem_or_empty_def)
  from export_nesting_stack [OF this] assms(2)
  show "length (clicked (saveEventToFile d s)) = length (clicked s) + stack s + 1"
    and "length (console (saveEventToFile d s)) = length (console s) + stack s"
    by (simp_all add: saveEventToFile_cases appended_def)
qed

section \<open>Properties of persistence and export\<close>

lemma length_long_buffer: "length long_buffer = 10001"
  by (simp add: long_buffer_def)

text \<open>
  C1. The export is meant to be followed at once by the reset of the buffer. On the
  loaded page \<open>full_world\<close>, whose buffer holds 10001 characters, the click on the
  download anchor reaches the script's own click listener before the reset: the
  listener logs \<open>click, link:a\<close>, this record is appended to the buffer that still
  holds all exported records, and a second export is made that contains it. Only then,
  with the call stack of this page used up, are the resets reached.
\<close>

theorem saveEventToFile_nested_export:
  "console (saveEventToFile ''e'' full_world) = [''2024-03-07T09:05:01.000Z, click, link:a''] \<and>
   map (\<lambda>a. data_url (href a)) (clicked (saveEventToFile ''e'' full_world)) =
     [Some (''text/plain'', long_buffer @ ''e'' @ newline),
      Some (''text/plain'', long_buffer @ ''e'' @ newline
              @ ''2024-03-07T09:05:01.000Z, click, link:a'' @ newline)] \<and>
   trackingEvents (saveEventToFile ''e'' full_world) = Some [] \<and>
   uncaught (saveEventToFile ''e'' full_world) = [RangeError]"
  by (simp add: full_world_def march_clock_def saveEventToFile_cases appended_def
      downloadTrackingData_eq logEvent_eq export_anchor_def getItem_or_empty_def
      length_long_buffer newline_def iso_simps data_url_encodeURIComponent [simplified])




section \<open>The buffer between two exports\<close>

lemma extends_saveEvents: "extends s (saveEvents ds s)"
proof (induction ds arbitrary: s)
  case Nil
  then show ?case by (simp add: saveEvents_def extends_refl)
next
  case (Cons d ds)
  have "extends s (saveEventToFile d s)" by (rule extends_cycle)
  moreover have "extends (saveEventToFile d s) (saveEvents ds (saveEventToFile d s))"
    by (rule Cons.IH)
  ultimately show ?case by (simp add: saveEvents_def extends_trans)
qed

lemma clicked_saveEvents_mono: "length (clicked s) \<le> length (clicked (saveEvents ds s))"
  by (rule clicked_length_mono [OF extends_saveEvents])

lemma saveEvents_append: "saveEvents (xs @ ys) s = saveEvents ys (saveEvents xs s)"
  by (simp add: saveEvents_def)

lemma saveEvents_no_export:
  assumes "length (clicked (saveEvents ds s)) = length (clicked s)"
  shows "getItem_or_empty (saveEvents ds s) =
     getItem_or_empty s @ concat (map (\<lambda>d. d @ newline) ds)"
  using assms
proof (induction ds arbitrary: s)
  case Nil
  then show ?case by (simp add: saveEvents_def)
next
  case (Cons d ds)
  let ?s1 = "saveEventToFile d s"
  have eq: "saveEvents (d # ds) s = saveEvents ds ?s1" by (simp add: saveEvents_def)
  have "length (clicked ?s1) \<le> length (clicked (saveEvents ds ?s1))"
    by (rule clicked_saveEvents_mono)
  with Cons.prems eq have le: "length (clicked ?s1) \<le> length (clicked s)" by simp
  moreover have "length (clicked s) \<le> length (clicked ?s1)"
    by (rule clicked_length_mono [OF extends_cycle(4)])
  ultimately have same: "length (clicked ?s1) = length (clicked s)" by simp
  then have small: "length (getItem_or_empty s) \<le> 10000"
    by (simp add: clicked_saveEventToFile_length)
  from same Cons.prems eq have "length (clicked (saveEvents ds ?s1)) = length (clicked ?s1)"
    by simp
  then have "getItem_or_empty (saveEvents ds ?s1) =
      getItem_or_empty ?s1 @ concat (map (\<lambda>d. d @ newline) ds)"
    by (rule Cons.IH)
  moreover have "getItem_or_empty ?s1 = getItem_or_empty s @ d @ newline"
    using small by (simp add: saveEventToFile_cases appended_def getItem_or_empty_def)
  ultimately show ?case using eq by simp
qed

lemma saveEvents_no_export_take:
  assumes "length (clicked (saveEvents ds s)) = length (clicked s)"
  shows "length (clicked (saveEvents (take n ds) s)) = length (clicked s)"
proof -
  have "saveEvents ds s = saveEvents (drop n ds) (saveEvents (take n ds) s)"
    by (simp add: saveEvents_append [symmetric])
  then have "length (clicked (saveEvents (take n ds) s)) \<le> length (clicked (saveEvents ds s))"
    using clicked_saveEvents_mono [of "saveEvents (take n ds) s" "drop n ds"] by simp
  with assms clicked_saveEvents_mono [of s "take n ds"] show ?thesis by simp
qed

lemma trackingEvents_saveEvents:
  assumes "ds \<noteq> []"
  shows "trackingEvents (saveEvents ds s) = Some (getItem_or_empty (saveEvents ds s))"
proof -
  from assms obtain xs d where "ds = xs @ [d]" by (cases ds rule: rev_cases) auto
  then show ?thesis
    by (simp add: saveEvents_def trackingEvents_saveEventToFile)
qed

text \<open>
  C8. Let the records \<open>ds\<close> be saved one after the other with no export among them.
  After the first \<open>n\<close> of them the buffer is the buffer from before (empty when the item
  was absent) followed by these \<open>n\<close> records in their order, each with a newline; the
  next record is appended at the end with its newline and makes the buffer strictly
  longer; and after a run of at least one record the item exists in storage.
\<close>

theorem buffer_append_only:
  assumes "length (clicked (saveEvents ds s)) = length (clicked s)"
  shows "getItem_or_empty (saveEvents (take n ds) s) =
           getItem_or_empty s @ concat (map (\<lambda>d. d @ newline) (take n ds)) \<and>
         (n < length ds \<longrightarrow>
            getItem_or_empty (saveEvents (take (Suc n) ds) s) =
              getItem_or_empty (saveEvents (take n ds) s) @ ds ! n @ newline \<and>
            length (getItem_or_empty (saveEvents (take n ds) s))
              < length (getItem_or_empty (saveEvents (take (Suc n) ds) s))) \<and>
         (ds \<noteq> [] \<longrightarrow>
            trackingEvents (saveEvents ds s) =
              Some (getItem_or_empty s @ concat (map (\<lambda>d. d @ newline) ds)))"
proof -
  have pre: "getItem_or_empty (saveEvents (take m ds) s) =
      getItem_or_empty s @ concat (map (\<lambda>d. d @ newline) (take m ds))" for m
    by (rule saveEvents_no_export [OF saveEvents_no_export_take [OF assms]])
  have step: "getItem_or_empty (saveEvents (take (Suc n) ds) s) =
      getItem_or_empty (saveEvents (take n ds) s) @ ds ! n @ newline" if "n < length ds"
  proof -
    have "take (Suc n) ds = take n ds @ [ds ! n]"
      using that by (rule take_Suc_conv_app_nth)
    then have "concat (map (\<lambda>d. d @ newline) (take (Suc n) ds)) =
        concat (map (\<lambda>d. d @ newline) (take n ds)) @ ds ! n @ newline"
      by simp
    then show ?thesis
      using pre [of n] pre [of "Suc n"] by simp
  qed
  have grow: "length (getItem_or_empty (saveEvents (take n ds) s))
      < length (getItem_or_empty (saveEvents (take (Suc n) ds) s))" if "n < length ds"
    using step [OF that] by (simp add: newline_def)
  have whole: "trackingEvents (saveEvents ds s) =
      Some (getItem_or_empty s @ concat (map (\<lambda>d. d @ newline) ds))" if "ds \<noteq> []"
    using trackingEvents_saveEvents [OF that] saveEvents_no_export [OF assms] by simp
  from pre step grow whole show ?thesis by blast
qed

theorem buffer_append_only_witness:
  "length (clicked (saveEvents three_records fresh_world)) = length (clicked fresh_world) \<and>
   getItem_or_empty (saveEvents (take 2 three_records) fresh_world) =
     ''t1, view, page:Home'' @ newline @ ''t2, click, link:#about'' @ newline \<and>
   trackingEvents (saveEvents three_records fresh_world) =
     Some (''t1, view, page:Home'' @ newline @ ''t2, click, link:#about'' @ newline @
           ''t3, view, section:hero'' @ newline)"
proof -
  have h: "length (clicked (saveEvents three_records fresh_world)) = length (clicked fresh_world)"
    by (simp add: saveEvents_def three_records_def fresh_world_def saveEventToFile_cases
        appended_def getItem_or_empty_def newline_def)
  show ?thesis
    using h buffer_append_only [OF h, of 2]
    by (simp add: three_records_def fresh_world_def getItem_or_empty_def)
qed

section \<open>Properties of the logger and of the section observer\<close>






lemma console_downloadTrackingData_stack:
  "stack s = n \<Longrightarrow>
     \<exists>extra. console (downloadTrackingData s) = console s @ extra \<and>
        list_all is_export_click extra"
proof (induction n arbitrary: s)
  case 0
  then show ?case by (simp add: downloadTrackingData_eq)
next
  case (Suc n)
  show ?case
  proof (cases "listening s")
    case False
    then show ?thesis by (simp add: downloadTrackingData_eq)
  next
    case True
    let ?x = "s\<lparr>reads := Suc (reads s), clicked := clicked s @ [export_anchor s],
                 stack := stack s - 1\<rparr>"
    let ?e = "toISOString (clock ?x (reads ?x)) @ '', '' @ ''click'' @ '', '' @ ''link''
                @ '':'' @ ''a''"
    let ?x2 = "?x\<lparr>reads := Suc (reads ?x), console := console ?x @ [?e]\<rparr>"
    have click: "is_export_click ?e"
      by (simp add: is_export_click_def suffix_def)
    have dl: "downloadTrackingData s =
        (saveEventToFile ?e ?x2)\<lparr>stack := stack s, trackingEvents := Some []\<rparr>"
      using True Suc.prems by (simp add: downloadTrackingData_eq logEvent_eq)
    have "\<exists>extra. console (saveEventToFile ?e ?x2) = console ?x2 @ extra \<and>
        list_all is_export_click extra"
    proof (cases "length (getItem_or_empty ?x2) \<le> 10000")
      case True
      then show ?thesis by (simp add: saveEventToFile_cases appended_def)
    next
      case False
      have "stack (appended ?e ?x2) = n" using Suc.prems by (simp add: appended_def)
      from Suc.IH [OF this] False show ?thesis
        by (simp add: saveEventToFile_cases appended_def)
    qed
    then obtain extra where "console (saveEventToFile ?e ?x2) = console ?x2 @ extra"
      and "list_all is_export_click extra" by blast
    with click have "console (downloadTrackingData s) = console s @ (?e # extra)"
      and "list_all is_export_click (?e # extra)"
      unfolding dl by simp_all
    then show ?thesis by blast
  qed
qed

lemma console_downloadTrackingData:
  "\<exists>extra. console (downloadTrackingData s) = console s @ extra \<and>
     list_all is_export_click extra"
  by (rule console_downloadTrackingData_stack [OF refl])

lemma console_saveEventToFile:
  "\<exists>extra. console (saveEventToFile d s) = console s @ extra \<and>
     list_all is_export_click extra"
proof (cases "length (getItem_or_empty s) \<le> 10000")
  case True
  then show ?thesis by (simp add: saveEventToFile_cases appended_def)
next
  case False
  with console_downloadTrackingData [of "appended d s"] show ?thesis
    by (simp add: saveEventToFile_cases appended_def)
qed

lemma console_logEvent:
  "\<exists>extra. console (logEvent k t d s) =
       console s @ (toISOString (clock s (reads s)) @ '', '' @ k @ '', '' @ t @ '':'' @ d) # extra \<and>
     list_all is_export_click extra"
proof -
  let ?e = "toISOString (clock s (reads s)) @ '', '' @ k @ '', '' @ t @ '':'' @ d"
  let ?s2 = "s\<lparr>reads := Suc (reads s), console := console s @ [?e]\<rparr>"
  from console_saveEventToFile [of ?e ?s2] show ?thesis
    unfolding logEvent_eq by simp
qed

lemma extends_sectionObserver_entry: "extends s (sectionObserver_entry en s)"
  by (simp add: sectionObserver_entry_def extends_refl extends_cycle Let_def)

lemma clock_sectionObserver_entry: "clock (sectionObserver_entry en s) = clock s"
  using extends_sectionObserver_entry [of s en] by (simp add: extends_def)

lemma console_sectionObserver_entry:
  "\<exists>groups. console (sectionObserver_entry en s) = console s @ concat groups \<and>
     list_all2 (section_group (clock s)) groups (filter isIntersecting [en])"
proof (cases "isIntersecting en")
  case False
  then show ?thesis by (simp add: sectionObserver_entry_def)
next
  case True
  from console_logEvent [of "''view''" "''section''" "sectionId en" s] obtain extra where
    "console (logEvent ''view'' ''section'' (sectionId en) s) =
       console s @ (toISOString (clock s (reads s)) @ '', '' @ ''view'' @ '', '' @ ''section''
         @ '':'' @ sectionId en) # extra"
    and "list_all is_export_click extra" by blast
  then have "console (sectionObserver_entry en s) =
      console s @ concat [(toISOString (clock s (reads s)) @ '', view, section:'' @ sectionId en) # extra]"
    and "section_group (clock s)
      ((toISOString (clock s (reads s)) @ '', view, section:'' @ sectionId en) # extra) en"
    using True
    by (auto simp add: sectionObserver_entry_def sectionId_def truthy_def Let_def
        section_group_def)
  with True show ?thesis
    by (intro exI [of _ "[(toISOString (clock s (reads s)) @ '', view, section:''
        @ sectionId en) # extra]"]) simp
qed

lemma console_sectionObserver:
  "\<exists>groups. console (sectionObserver entries s) = console s @ concat groups \<and>
     list_all2 (section_group (clock s)) groups (filter isIntersecting entries)"
proof (induction entries arbitrary: s)
  case Nil
  then show ?case by (simp add: sectionObserver_def)
next
  case (Cons en entries)
  let ?s1 = "sectionObserver_entry en s"
  obtain g1 where 1: "console ?s1 = console s @ concat g1"
    and 2: "list_all2 (section_group (clock s)) g1 (filter isIntersecting [en])"
    using console_sectionObserver_entry [of en s] by blast
  obtain g2 where 3: "console (sectionObserver entries ?s1) = console ?s1 @ concat g2"
    and 4: "list_all2 (section_group (clock ?s1)) g2 (filter isIntersecting entries)"
    using Cons.IH [of ?s1] by blast
  have step: "sectionObserver (en # entries) s = sectionObserver entries ?s1"
    by (simp add: sectionObserver_def)
  have "console (sectionObserver (en # entries) s) = console s @ concat (g1 @ g2)"
    using step 1 3 by simp
  moreover have "list_all2 (section_group (clock s)) (g1 @ g2)
      (filter isIntersecting [en] @ filter isIntersecting entries)"
    using 2 4 unfolding clock_sectionObserver_entry by (rule list_all2_appendI)
  moreover have "filter isIntersecting [en] @ filter isIntersecting entries =
      filter isIntersecting (en # entries)"
    by simp
  ultimately show ?case
    by (intro exI [of _ "g1 @ g2"]) (simp only: simp_thms)
qed

lemma sectionObserver_calls_concat:
  "sectionObserver_calls calls s = sectionObserver (concat calls) s"
  by (induction calls arbitrary: s)
    (simp_all add: sectionObserver_calls_def sectionObserver_def)

text \<open>
  C3, as stated: the record \<open>view, section:hero\<close> is logged once and never again. It
  fails when the section leaves the view and enters it again: the three calls of
  \<open>hero_calls\<close> on a fresh page leave two such records on the console.
\<close>

theorem sectionObserver_relogs:
  "console (sectionObserver_calls hero_calls fresh_world) =
     [''2024-03-07T09:05:00.000Z, view, section:hero'',
      ''2024-03-07T09:05:01.000Z, view, section:hero'']"
  by (simp add: hero_calls_def hero_section_def fresh_world_def march_clock_def
      sectionObserver_calls_def sectionObserver_def sectionObserver_entry_def truthy_def
      logEvent_eq saveEventToFile_cases appended_def getItem_or_empty_def newline_def
      Let_def iso_simps)

text \<open>
  C3, amended. Every entry that the observer delivers with \<^verbatim>\<open>isIntersecting\<close> true logs
  one record \<open>view, section:\<close> followed by the id of its section, \<open>view, section:hero\<close>
  for the section with id \<open>hero\<close>, and an entry with \<^verbatim>\<open>isIntersecting\<close> false logs
  nothing. The console grows by these records in the order of the entries, on a page
  with any number of sections: the hero record is written when the observer first
  reports the section as intersecting and once more for every later entry that reports
  it so. The only other lines are those that an export triggered by such a record adds
  after it.
\<close>

theorem sectionObserver_logs_each_intersecting:
  "\<exists>groups. console (sectionObserver_calls calls s) = console s @ concat groups \<and>
     list_all2
       (\<lambda>g en. \<exists>n extra.
          g = (toISOString (clock s n) @ '', view, section:''
                 @ (if id_prop (target en) = [] then ''unnamed-section''
                    else id_prop (target en))) # extra \<and>
          list_all (suffix '', click, link:a'') extra)
       groups (filter isIntersecting (concat calls))"
  using console_sectionObserver [of "concat calls" s]
  unfolding sectionObserver_calls_concat section_group_def sectionId_def is_export_click_def
  by simp

theorem sectionObserver_logs_each_intersecting_witness:
  "filter isIntersecting (concat two_section_calls) =
     [\<lparr>target = hero_section, isIntersecting = True\<rparr>,
      \<lparr>target = about_section, isIntersecting = True\<rparr>] \<and>
   (\<exists>n m extra extra'.
      console (sectionObserver_calls two_section_calls fresh_world) =
        (toISOString (march_clock n) @ '', view, section:hero'') # extra @
        (toISOString (march_clock m) @ '', view, section:about'') # extra')"
proof -
  have f: "filter isIntersecting (concat two_section_calls) =
     [\<lparr>target = hero_section, isIntersecting = True\<rparr>,
      \<lparr>target = about_section, isIntersecting = True\<rparr>]"
    by (simp add: two_section_calls_def)
  have c: "console fresh_world = []" "clock fresh_world = march_clock"
    by (simp_all add: fresh_world_def)
  from sectionObserver_logs_each_intersecting [of two_section_calls fresh_world]
  obtain groups where
    1: "console (sectionObserver_calls two_section_calls fresh_world) = concat groups"
    and 2: "list_all2
       (\<lambda>g en. \<exists>n extra.
          g = (toISOString (march_clock n) @ '', view, section:''
                 @ (if id_prop (target en) = [] then ''unnamed-section''
                    else id_prop (target en))) # extra \<and>
          list_all (suffix '', click, link:a'') extra)
       groups [\<lparr>target = hero_section, isIntersecting = True\<rparr>,
      \<lparr>target = about_section, isIntersecting = True\<rparr>]"
    unfolding f c by auto
  from 2 obtain n m extra extra' where
    "groups = [(toISOString (march_clock n) @ '', view, section:hero'') # extra,
               (toISOString (march_clock m) @ '', view, section:about'') # extra']"
    by (auto simp add: list_all2_Cons2 hero_section_def about_section_def)
  with 1 have "console (sectionObserver_calls two_section_calls fresh_world) =
        (toISOString (march_clock n) @ '', view, section:hero'') # extra @
        (toISOString (march_clock m) @ '', view, section:about'') # extra'"
    by simp
  with f show ?thesis by blast
qed

end
